theory Spec2Isabelle
  imports Complex_Main "HOL-Library.Log_Nat"
begin

text \<open>
  The progress logic of the DSA sheet client: the TopicDetail component, which holds the
  progress records of the user and toggles the completion of a problem optimistically,
  and the Dashboard component, which derives the statistics shown from the topics and
  the progress records it fetches.
\<close>

section \<open>TopicDetail: the progress store and the toggle protocol\<close>

text \<open>
  A progress record as the component reads it: its own identifier (\<open>_id\<close>), the
  identifier of the problem it belongs to (\<open>problemId._id\<close>) and the completed flag.
\<close>

record progress =
  p_id :: string
  problemId :: string
  completed :: bool

text \<open>\<open>String.prototype.startsWith\<close> at position 0.\<close>

definition startsWith :: "string \<Rightarrow> string \<Rightarrow> bool" where
  "startsWith s p = (take (length p) s = p)"

text \<open>Decimal rendering of \<open>Date.now()\<close> inside the template literal.\<close>

definition digit_char :: "nat \<Rightarrow> char" where
  "digit_char d = char_of (48 + d)"

fun digits :: "nat \<Rightarrow> string" where
  "digits n = (if n < 10 then [digit_char n] else digits (n div 10) @ [digit_char (n mod 10)])"

declare digits.simps [simp del]

definition temp_id :: "string \<Rightarrow> nat \<Rightarrow> string" where
  "temp_id pid now = ''temp-'' @ pid @ ''-'' @ digits now"

text \<open>\<open>isProblemCompleted\<close>: \<open>Array.prototype.find\<close> yields the first match.\<close>

definition isProblemCompleted :: "progress list \<Rightarrow> string \<Rightarrow> bool" where
  "isProblemCompleted userProgress pid =
     (case List.find (\<lambda>p. problemId p = pid) userProgress of
        Some progress \<Rightarrow> completed progress
      | None \<Rightarrow> False)"

text \<open>\<open>fetchData\<close> stores the response as it is: \<open>setUserProgress(progressResponse.data)\<close>.\<close>

definition load :: "progress list \<Rightarrow> progress list" where
  "load records = records"

text \<open>The updater passed to \<open>setUserProgress\<close> in the \<open>try\<close> block.\<close>

definition applyOptimistic :: "string \<Rightarrow> bool \<Rightarrow> nat \<Rightarrow> progress list \<Rightarrow> progress list" where
  "applyOptimistic pid newCompletedState now prev =
     (case List.find (\<lambda>p. problemId p = pid) prev of
        Some existingProgress \<Rightarrow>
          map (\<lambda>progress. if problemId progress = pid
                           then progress\<lparr>completed := newCompletedState\<rparr>
                           else progress) prev
      | None \<Rightarrow>
          prev @ [\<lparr>p_id = temp_id pid now, problemId = pid, completed = newCompletedState\<rparr>])"

text \<open>The updater passed to \<open>setUserProgress\<close> in the \<open>catch\<close> block.\<close>

definition rollback :: "string \<Rightarrow> bool \<Rightarrow> progress list \<Rightarrow> progress list" where
  "rollback pid completed0 prev =
     filter (\<lambda>progress. \<not> startsWith (p_id progress) ''temp-'')
       (map (\<lambda>progress. if problemId progress = pid
                        then progress\<lparr>completed := completed0\<rparr>
                        else progress) prev)"

text \<open>
  The component state the toggle touches, together with the two effects that leave the
  component: the requests posted to the backend and the events dispatched on \<open>window\<close>.
  The line written by \<open>console.error\<close> changes nothing of these and is left out.
\<close>

record td_state =
  userProgress :: "progress list"
  updatingProblems :: "string set"
  posted :: "(string \<times> bool) list"
  dispatched :: "string list"

datatype api_result = Fulfilled | Rejected

text \<open>
  \<open>toggleProblemProgress\<close> suspends at \<open>await api.post\<close>. Everything before the
  suspension is \<open>toggle_begin\<close>; everything after it (success path or \<open>catch\<close>, then
  \<open>finally\<close>) is \<open>toggle_settle\<close>. Both state setters are functional updaters, so
  each phase acts on the state current at that moment.
\<close>

definition toggle_begin :: "td_state \<Rightarrow> string \<Rightarrow> bool \<Rightarrow> nat \<Rightarrow> td_state" where
  "toggle_begin st pid completed0 now =
     (let newCompletedState = \<not> completed0 in
      st\<lparr>updatingProblems := insert pid (updatingProblems st),
         userProgress := applyOptimistic pid newCompletedState now (userProgress st),
         posted := posted st @ [(pid, newCompletedState)]\<rparr>)"

definition toggle_settle :: "td_state \<Rightarrow> string \<Rightarrow> bool \<Rightarrow> api_result \<Rightarrow> td_state" where
  "toggle_settle st pid completed0 r =
     (let st1 = (case r of
                   Fulfilled \<Rightarrow> st\<lparr>dispatched := dispatched st @ [''progressUpdated'']\<rparr>
                 | Rejected \<Rightarrow> st\<lparr>userProgress := rollback pid completed0 (userProgress st)\<rparr>)
      in st1\<lparr>updatingProblems := updatingProblems st1 - {pid}\<rparr>)"

definition toggleProblemProgress ::
    "td_state \<Rightarrow> string \<Rightarrow> bool \<Rightarrow> nat \<Rightarrow> api_result \<Rightarrow> td_state" where
  "toggleProblemProgress st pid completed0 now r =
     toggle_settle (toggle_begin st pid completed0 now) pid completed0 r"





text \<open>
  The checkbox of a problem, as rendered: the value of its \<open>disabled\<close> attribute is
  \<open>isUpdating\<close>, and its \<open>onChange\<close> handler calls the toggle, without any test, with
  the flag currently displayed. The call runs up to the suspension of the toggle.
\<close>

definition isUpdating :: "td_state \<Rightarrow> string \<Rightarrow> bool" where
  "isUpdating st pid = (pid \<in> updatingProblems st)"

definition checkbox_onChange :: "td_state \<Rightarrow> string \<Rightarrow> nat \<Rightarrow> td_state" where
  "checkbox_onChange st pid now =
     toggle_begin st pid (isProblemCompleted (userProgress st) pid) now"

section \<open>Numbers: \<open>Math.round((completed / total) * 100)\<close>\<close>

text \<open>
  The counts are integers, but \<open>/\<close> and \<open>*\<close> are IEEE 754 double operations: each
  result is the exact value rounded to a 53-bit significand, ties to even. A finite
  nonnegative double is the pair \<open>(m, e)\<close> standing for \<open>m * 2 ^ e\<close>. The exponent
  range of doubles is never left by the quotient of two array lengths, nor by its
  product with 100, so neither overflow nor subnormal numbers are modelled.
\<close>

type_synonym double = "int \<times> int"

definition double_val :: "double \<Rightarrow> real" where
  "double_val x = (case x of (m, e) \<Rightarrow> real_of_int m * 2 ^ nat e / 2 ^ nat (- e))"

text \<open>The integer nearest to \<open>n / d\<close>, the even one of the two at a tie.\<close>

definition round_nearest_even :: "int \<Rightarrow> int \<Rightarrow> int" where
  "round_nearest_even n d =
     (let q = n div d; r = n mod d in
      if 2 * r < d then q
      else if 2 * r > d then q + 1
      else if even q then q else q + 1)"

text \<open>The fraction \<open>(a / b) / 2 ^ e\<close> as numerator and denominator.\<close>

definition scaled :: "int \<Rightarrow> int \<Rightarrow> int \<Rightarrow> int \<times> int" where
  "scaled a b e = (a * 2 ^ nat (- e), b * 2 ^ nat e)"

text \<open>
  The double nearest to \<open>a / b\<close> for \<open>a \<ge> 0\<close>, \<open>b > 0\<close>: the exponent is chosen so
  that the scaled fraction lies in \<open>[2^52, 2^53)\<close>, then the fraction is rounded.
\<close>

definition double_of_quotient :: "int \<Rightarrow> int \<Rightarrow> double" where
  "double_of_quotient a b =
     (if a \<le> 0 then (0, 0)
      else
        let e0 = bitlen a - bitlen b - 53;
            e = (case scaled a b e0 of (n, d) \<Rightarrow> if 2 ^ 53 * d \<le> n then e0 + 1 else e0)
        in case scaled a b e of (n, d) \<Rightarrow> (round_nearest_even n d, e))"

text \<open>\<open>x / y\<close> on two integers that are doubles exactly (below \<open>2^53\<close>).\<close>

definition double_div :: "int \<Rightarrow> int \<Rightarrow> double" where
  "double_div x y = double_of_quotient x y"

text \<open>\<open>x * k\<close> for a double \<open>x\<close> and an integer constant \<open>k\<close>.\<close>

definition double_mult :: "double \<Rightarrow> int \<Rightarrow> double" where
  "double_mult x k =
     (case x of (m, e) \<Rightarrow> double_of_quotient (m * k * 2 ^ nat e) (2 ^ nat (- e)))"

text \<open>
  \<open>Math.round\<close>: the integer closest to the argument, the larger one at a tie, which
  is \<open>\<lfloor>x + 1/2\<rfloor>\<close> computed exactly.
\<close>

definition Math_round :: "double \<Rightarrow> int" where
  "Math_round x =
     (case x of (m, e) \<Rightarrow> (2 * m * 2 ^ nat e + 2 ^ nat (- e)) div (2 * 2 ^ nat (- e)))"

text \<open>
  The expression shared by all three places:
  \<open>total > 0 ? Math.round((completed / total) * 100) : 0\<close>.
\<close>

definition percentage_of :: "int \<Rightarrow> int \<Rightarrow> int" where
  "percentage_of completedCount totalProblems =
     (if totalProblems > 0
      then Math_round (double_mult (double_div completedCount totalProblems) 100)
      else 0)"

text \<open>Round-half-up of the exact quotient \<open>100 * c / t\<close>, for comparison.\<close>

definition round_half_up_percent :: "int \<Rightarrow> int \<Rightarrow> int" where
  "round_half_up_percent c t = (200 * c + t) div (2 * t)"

section \<open>Topics and their statistics\<close>

text \<open>
  A problem and a topic with the fields the computations read. A topic carries its array
  of problems: the Dashboard maps over \<open>topic.problems\<close> unguarded before its guards
  \<open>topic.problems ? \<dots> : 0\<close> are reached, so these take their first branch. The
  Dashboard copies each problem and adds the flag \<open>completed\<close> to the copy.
\<close>

record problem =
  problem_id :: string
  problem_title :: string

record problem_with_progress = problem +
  problem_completed :: bool

record 'p topic =
  topic_id :: string
  topic_title :: string
  problems :: "'p list"

record topic_stats =
  ts_total :: int
  ts_completed :: int
  ts_percentage :: int

text \<open>TopicDetail, the lines before its \<open>return\<close>.\<close>

definition topicDetail_stats :: "problem topic \<Rightarrow> progress list \<Rightarrow> topic_stats" where
  "topicDetail_stats tp progressData =
     (let completedProblems =
            int (length (filter (\<lambda>problem. isProblemCompleted progressData (problem_id problem))
                           (problems tp)));
          totalProblems = int (length (problems tp))
      in \<lparr>ts_total = totalProblems, ts_completed = completedProblems,
          ts_percentage = percentage_of completedProblems totalProblems\<rparr>)"

text \<open>Dashboard, the body of \<open>topics.map\<close> in the topics grid.\<close>

definition dashboard_card_stats :: "problem_with_progress topic \<Rightarrow> topic_stats" where
  "dashboard_card_stats tp =
     (let totalProblems = int (length (problems tp));
          completedProblems = int (length (filter problem_completed (problems tp)))
      in \<lparr>ts_total = totalProblems, ts_completed = completedProblems,
          ts_percentage = percentage_of completedProblems totalProblems\<rparr>)"

section \<open>Dashboard: \<open>fetchData\<close>\<close>

record stats =
  stats_total :: int
  stats_completed :: int
  stats_remaining :: int
  stats_percentage :: int

definition zero_stats :: stats where
  "zero_stats = \<lparr>stats_total = 0, stats_completed = 0, stats_remaining = 0, stats_percentage = 0\<rparr>"

datatype 'a response = Resolved 'a | Failed

text \<open>
  The \<open>Set\<close> filled by \<open>userProgress.forEach\<close> (\<open>userProgress\<close> is
  \<open>progressResponse.data\<close>), the topics with the flags added and the local statistics,
  on data of the expected shape.
\<close>

definition completedProblems :: "progress list \<Rightarrow> string set" where
  "completedProblems progressData =
     fold (\<lambda>progress s. if completed progress then insert (problemId progress) s else s)
       progressData {}"

definition topicsWithProgress ::
    "problem topic list \<Rightarrow> progress list \<Rightarrow> problem_with_progress topic list" where
  "topicsWithProgress topicsData progressData =
     map (\<lambda>tp. \<lparr>topic_id = topic_id tp, topic_title = topic_title tp,
                 problems = map (\<lambda>problem.
                     \<lparr>problem_id = problem_id problem, problem_title = problem_title problem,
                      problem_completed = (problem_id problem \<in> completedProblems progressData)\<rparr>)
                   (problems tp)\<rparr>) topicsData"

text \<open>The object built in the \<open>else\<close> branch.\<close>

definition localStats :: "problem topic list \<Rightarrow> progress list \<Rightarrow> stats" where
  "localStats topicsData progressData =
     (let totalProblems = foldl (\<lambda>total tp. total + int (length (problems tp))) 0 topicsData;
          completedCount = int (length (filter completed progressData))
      in \<lparr>stats_total = totalProblems,
          stats_completed = completedCount,
          stats_remaining = totalProblems - completedCount,
          stats_percentage = percentage_of completedCount totalProblems\<rparr>)"

record dashboard =
  topics :: "problem_with_progress topic list"
  stats :: stats
  loading :: bool

text \<open>
  The responses as \<open>fetchData\<close> receives them. Nothing checks their shape: a topic may
  come without its array of problems, and the problem reference of a progress record
  may be null. Reading \<open>topic.problems.map\<close> or \<open>progress.problemId._id\<close> then throws
  inside the \<open>try\<close> block; \<open>None\<close> stands for the missing part, and for the throw in
  the results below.
\<close>

record progress_json =
  pj_id :: string
  pj_problemId :: "string option"
  pj_completed :: bool

record topic_json =
  tj_id :: string
  tj_title :: string
  tj_problems :: "problem list option"

text \<open>
  \<open>userProgress.forEach\<close>: the reference of a record is read only when the record is
  completed.
\<close>

definition completedProblems_json :: "progress_json list \<Rightarrow> string set option" where
  "completedProblems_json progressData =
     fold (\<lambda>progress acc.
             case acc of
               None \<Rightarrow> None
             | Some s \<Rightarrow>
                 if pj_completed progress
                 then (case pj_problemId progress of
                         None \<Rightarrow> None
                       | Some i \<Rightarrow> Some (insert i s))
                 else Some s)
       progressData (Some {})"

text \<open>\<open>topicsData.map\<close>: a topic without problems stops the whole map.\<close>

definition topicsWithProgress_json ::
    "topic_json list \<Rightarrow> string set \<Rightarrow> problem_with_progress topic list option" where
  "topicsWithProgress_json topicsData completedSet =
     those (map (\<lambda>tp.
        case tj_problems tp of
          None \<Rightarrow> None
        | Some ps \<Rightarrow>
            Some \<lparr>topic_id = tj_id tp, topic_title = tj_title tp,
                  problems = map (\<lambda>problem.
                     \<lparr>problem_id = problem_id problem, problem_title = problem_title problem,
                      problem_completed = (problem_id problem \<in> completedSet)\<rparr>) ps\<rparr>)
       topicsData)"

text \<open>The object built in the \<open>else\<close> branch, with the guard of its \<open>reduce\<close>.\<close>

definition localStats_json :: "topic_json list \<Rightarrow> progress_json list \<Rightarrow> stats" where
  "localStats_json topicsData progressData =
     (let totalProblems =
            foldl (\<lambda>total tp. total + (case tj_problems tp of
                                           Some ps \<Rightarrow> int (length ps)
                                         | None \<Rightarrow> 0)) 0 topicsData;
          completedCount = int (length (filter pj_completed progressData))
      in \<lparr>stats_total = totalProblems,
          stats_completed = completedCount,
          stats_remaining = totalProblems - completedCount,
          stats_percentage = percentage_of completedCount totalProblems\<rparr>)"

text \<open>
  The three requests of \<open>Promise.all\<close>. The stats and progress requests carry their
  own \<open>catch\<close>, which replaces a failure by zero stats and by the empty list; a failed
  topics request rejects the whole and reaches the outer \<open>catch\<close>, and so does a throw
  while the responses are processed. The outer \<open>catch\<close> sets the statistics to zero and
  leaves the topics as they were. The data of the stats response is \<open>None\<close> when it is
  absent (falsy).
\<close>

definition fetchData ::
    "dashboard \<Rightarrow> topic_json list response \<Rightarrow> stats option response \<Rightarrow>
     progress_json list response \<Rightarrow> dashboard" where
  "fetchData st topicsResponse statsResponse progressResponse =
     (let statsData = (case statsResponse of Resolved d \<Rightarrow> d | Failed \<Rightarrow> Some zero_stats);
          progressData = (case progressResponse of Resolved d \<Rightarrow> d | Failed \<Rightarrow> []);
          caught = st\<lparr>stats := zero_stats, loading := False\<rparr>
      in case topicsResponse of
           Failed \<Rightarrow> caught
         | Resolved topicsData \<Rightarrow>
             (case completedProblems_json progressData of
                None \<Rightarrow> caught
              | Some completedSet \<Rightarrow>
                  (case topicsWithProgress_json topicsData completedSet of
                     None \<Rightarrow> caught
                   | Some withProgress \<Rightarrow>
                       st\<lparr>topics := withProgress,
                          stats := (case statsData of
                                      Some remote \<Rightarrow>
                                        if stats_total remote > 0 then remote
                                        else localStats_json topicsData progressData
                                    | None \<Rightarrow> localStats_json topicsData progressData),
                          loading := False\<rparr>)))"

text \<open>
  Responses of the expected shape, where every topic has its problems and every record
  its problem reference: on these \<open>fetchData\<close> computes \<open>topicsWithProgress\<close> and
  \<open>localStats\<close>.
\<close>

definition json_of_progress :: "progress \<Rightarrow> progress_json" where
  "json_of_progress p =
     \<lparr>pj_id = p_id p, pj_problemId = Some (problemId p), pj_completed = completed p\<rparr>"

definition json_of_topic :: "problem topic \<Rightarrow> topic_json" where
  "json_of_topic tp =
     \<lparr>tj_id = topic_id tp, tj_title = topic_title tp, tj_problems = Some (problems tp)\<rparr>"

section \<open>Properties of the progress store\<close>

lemma startsWith_temp_id: "startsWith (temp_id pid now) ''temp-''"
  by (simp add: startsWith_def temp_id_def)

lemma digits_7: "digits 7 = ''7''"
  by code_simp

lemma digits_8: "digits 8 = ''8''"
  by code_simp

lemma isProblemCompleted_Nil: "isProblemCompleted [] pid = False"
  by (simp add: isProblemCompleted_def)

lemma isProblemCompleted_Cons:
  "isProblemCompleted (x # xs) pid =
     (if problemId x = pid then completed x else isProblemCompleted xs pid)"
  by (simp add: isProblemCompleted_def)

lemma isProblemCompleted_filter:
  "isProblemCompleted xs pid =
     (case filter (\<lambda>p. problemId p = pid) xs of
        [] \<Rightarrow> False
      | first # _ \<Rightarrow> completed first)"
  by (induction xs) (simp_all add: isProblemCompleted_Nil isProblemCompleted_Cons)

text \<open>
  C1, as the code has it: the query answers with the flag of the first record for the
  identifier among those loaded, and with false when there is none.
\<close>

theorem isCompleted_first_match:
  "isProblemCompleted (load records) pid =
     (case filter (\<lambda>p. problemId p = pid) records of
        [] \<Rightarrow> False
      | first # _ \<Rightarrow> completed first)"
  unfolding load_def by (rule isProblemCompleted_filter)

text \<open>
  C1 as stated (the flag of the last matching record) fails on a list holding two
  records, both for the problem \<open>P\<close>, with different flags: the answer is the flag
  of the first, not of the last.
\<close>

theorem isCompleted_last_write_counterexample:
  "isProblemCompleted
     (load [\<lparr>p_id = ''r1'', problemId = ''P'', completed = True\<rparr>,
            \<lparr>p_id = ''r2'', problemId = ''P'', completed = False\<rparr>]) ''P''
   \<noteq> completed (last
        [\<lparr>p_id = ''r1'', problemId = ''P'', completed = True\<rparr>,
         \<lparr>p_id = ''r2'', problemId = ''P'', completed = False\<rparr>])"
  by (simp add: load_def isProblemCompleted_def)

subsection \<open>Optimistic update and rollback\<close>

lemma filter_all: "\<forall>p \<in> set xs. Q p \<Longrightarrow> filter Q xs = xs"
  by (induction xs) auto

lemma map_flag_twice:
  "map (\<lambda>p. if problemId p = pid then p\<lparr>completed := c\<rparr> else p)
     (map (\<lambda>p. if problemId p = pid then p\<lparr>completed := b\<rparr> else p) xs)
   = map (\<lambda>p. if problemId p = pid then p\<lparr>completed := c\<rparr> else p) xs"
  by (induction xs) auto

lemma find_None_map_flag:
  "List.find (\<lambda>p. problemId p = pid) xs = None \<Longrightarrow>
   map (\<lambda>p. if problemId p = pid then p\<lparr>completed := c\<rparr> else p) xs = xs"
  by (induction xs) (auto split: if_splits)

lemma isProblemCompleted_map_flag:
  "isProblemCompleted (map (\<lambda>p. if problemId p = pid then p\<lparr>completed := c\<rparr> else p) xs) q =
     (if q = pid \<and> List.find (\<lambda>p. problemId p = pid) xs \<noteq> None then c
      else isProblemCompleted xs q)"
  by (induction xs) (auto simp add: isProblemCompleted_Cons isProblemCompleted_Nil)

text \<open>
  The round trip is sound on a store that holds persisted records only: then the filter
  of the rollback removes nothing but the record the optimistic update has just added.
\<close>

lemma round_trip_without_temporary_records:
  assumes "\<forall>p \<in> set s. \<not> startsWith (p_id p) ''temp-''"
  shows "isProblemCompleted
           (rollback pid (isProblemCompleted s pid)
              (applyOptimistic pid (\<not> isProblemCompleted s pid) now s)) q
         = isProblemCompleted s q"
proof (cases "List.find (\<lambda>p. problemId p = pid) s")
  case None
  then have "rollback pid (isProblemCompleted s pid)
              (applyOptimistic pid (\<not> isProblemCompleted s pid) now s) = s"
    using assms
    by (simp add: rollback_def applyOptimistic_def find_None_map_flag startsWith_temp_id
        filter_all)
  then show ?thesis by simp
next
  case (Some r)
  let ?f = "\<lambda>c p. if problemId p = pid then p\<lparr>completed := c\<rparr> else p"
  have pers: "\<forall>p \<in> set (map (?f c) s). \<not> startsWith (p_id p) ''temp-''" for c
    using assms by auto
  have "rollback pid (isProblemCompleted s pid)
              (applyOptimistic pid (\<not> isProblemCompleted s pid) now s)
        = map (?f (isProblemCompleted s pid)) s"
    using Some pers [of "isProblemCompleted s pid"]
    by (simp add: rollback_def applyOptimistic_def map_flag_twice filter_all del: map_map)
  then show ?thesis
    using Some by (simp add: isProblemCompleted_map_flag)
qed

text \<open>
  C2 at two stores that hold a record with a temporary identifier, each left behind by
  an earlier toggle that succeeded. In the first the record belongs to another problem
  \<open>Q\<close>; in the second it is the record of \<open>P\<close> itself. The optimistic update on
  \<open>P\<close> followed by its rollback with the captured flag turns a completed problem into
  an incomplete one in both.
\<close>

theorem round_trip_broken_by_temporary_records:
  "isProblemCompleted [\<lparr>p_id = ''temp-Q-7'', problemId = ''Q'', completed = True\<rparr>] ''Q''
   \<and> \<not> isProblemCompleted
        (rollback ''P''
           (isProblemCompleted [\<lparr>p_id = ''temp-Q-7'', problemId = ''Q'', completed = True\<rparr>] ''P'')
           (applyOptimistic ''P''
              (\<not> isProblemCompleted [\<lparr>p_id = ''temp-Q-7'', problemId = ''Q'', completed = True\<rparr>] ''P'')
              8 [\<lparr>p_id = ''temp-Q-7'', problemId = ''Q'', completed = True\<rparr>])) ''Q''
   \<and> isProblemCompleted [\<lparr>p_id = ''temp-P-7'', problemId = ''P'', completed = True\<rparr>] ''P''
   \<and> \<not> isProblemCompleted
        (rollback ''P''
           (isProblemCompleted [\<lparr>p_id = ''temp-P-7'', problemId = ''P'', completed = True\<rparr>] ''P'')
           (applyOptimistic ''P''
              (\<not> isProblemCompleted [\<lparr>p_id = ''temp-P-7'', problemId = ''P'', completed = True\<rparr>] ''P'')
              8 [\<lparr>p_id = ''temp-P-7'', problemId = ''P'', completed = True\<rparr>])) ''P''"
  by (simp add: isProblemCompleted_def applyOptimistic_def rollback_def temp_id_def startsWith_def)

text \<open>
  What the rollback leaves of the records of other problems: exactly those whose own
  identifier does not start with \<open>temp-\<close>, each unchanged.
\<close>

lemma rollback_other_records:
  "filter (\<lambda>p. problemId p \<noteq> pid) (rollback pid c xs) =
   filter (\<lambda>p. problemId p \<noteq> pid \<and> \<not> startsWith (p_id p) ''temp-'') xs"
  unfolding rollback_def by (induction xs) auto

text \<open>
  C3 on an empty store: the toggle of \<open>Q\<close> succeeds and leaves a record with
  completed = true; the later toggle of \<open>P\<close> fails, and its rollback removes the
  record of \<open>Q\<close> together with the one of \<open>P\<close>.
\<close>

theorem rollback_removes_unrelated_record:
  "userProgress (toggleProblemProgress
       \<lparr>userProgress = [], updatingProblems = {}, posted = [], dispatched = []\<rparr>
       ''Q'' False 7 Fulfilled)
     = [\<lparr>p_id = ''temp-Q-7'', problemId = ''Q'', completed = True\<rparr>]
   \<and> userProgress (toggleProblemProgress
        (toggleProblemProgress
           \<lparr>userProgress = [], updatingProblems = {}, posted = [], dispatched = []\<rparr>
           ''Q'' False 7 Fulfilled)
        ''P'' False 8 Rejected) = []"
  by (simp add: toggleProblemProgress_def toggle_settle_def toggle_begin_def Let_def
      applyOptimistic_def rollback_def temp_id_def startsWith_def digits_7 digits_8)

section \<open>Properties of the toggle protocol\<close>

lemma find_rollback_same:
  "List.find (\<lambda>p. problemId p = pid) (rollback pid c xs) = Some r \<Longrightarrow> completed r = c"
  unfolding rollback_def by (induction xs) (auto split: if_splits)

lemma isProblemCompleted_rollback_same:
  "isProblemCompleted (rollback pid c xs) pid \<Longrightarrow> c"
  unfolding isProblemCompleted_def
  by (auto split: option.splits dest: find_rollback_same)

lemma toggle_dispatched:
  "dispatched (toggleProblemProgress st pid c now r) =
     (case r of Fulfilled \<Rightarrow> dispatched st @ [''progressUpdated''] | Rejected \<Rightarrow> dispatched st)"
  by (cases r) (simp_all add: toggleProblemProgress_def toggle_settle_def toggle_begin_def Let_def)

lemma toggle_userProgress_Rejected:
  "userProgress (toggleProblemProgress st pid c now Rejected) =
     rollback pid c (applyOptimistic pid (\<not> c) now (userProgress st))"
  by (simp add: toggleProblemProgress_def toggle_settle_def toggle_begin_def Let_def)

text \<open>
  C4 as stated fails: \<open>toggleProblemProgress\<close> has no guard and no error result. On a
  problem that is in the in-flight set it runs as on any other and changes the store
  once more.
\<close>

theorem reentrant_toggle_mutates_again:
  "''P'' \<in> updatingProblems (toggle_begin
       \<lparr>userProgress = [], updatingProblems = {}, posted = [], dispatched = []\<rparr> ''P'' False 7)
   \<and> userProgress (toggleProblemProgress
        (toggle_begin
           \<lparr>userProgress = [], updatingProblems = {}, posted = [], dispatched = []\<rparr> ''P'' False 7)
        ''P''
        (isProblemCompleted (userProgress (toggle_begin
           \<lparr>userProgress = [], updatingProblems = {}, posted = [], dispatched = []\<rparr> ''P'' False 7)) ''P'')
        8 Fulfilled)
     \<noteq> userProgress (toggle_begin
           \<lparr>userProgress = [], updatingProblems = {}, posted = [], dispatched = []\<rparr> ''P'' False 7)"
  by (simp add: toggleProblemProgress_def toggle_settle_def toggle_begin_def Let_def
      applyOptimistic_def isProblemCompleted_def)

lemma isProblemCompleted_append_new:
  "List.find (\<lambda>p. problemId p = pid) xs = None \<Longrightarrow>
   isProblemCompleted (xs @ [r]) pid = (problemId r = pid \<and> completed r)"
  by (induction xs) (auto simp add: isProblemCompleted_Nil isProblemCompleted_Cons split: if_splits)

lemma isProblemCompleted_applyOptimistic:
  "isProblemCompleted (applyOptimistic pid b now xs) pid = b"
proof (cases "List.find (\<lambda>p. problemId p = pid) xs")
  case None
  then show ?thesis
    by (simp add: applyOptimistic_def isProblemCompleted_append_new)
next
  case (Some r)
  then show ?thesis
    by (simp add: applyOptimistic_def isProblemCompleted_map_flag)
qed

text \<open>
  C4, as the code has it: the toggle has no test of the in-flight set and no error
  result. Started for a problem that is in the in-flight set, with the flag currently
  displayed as the checkbox passes it, it flips the displayed flag of the problem once
  more, so the store changes again, and posts another request; when that request
  succeeds the flipped state stays and \<open>progressUpdated\<close> is dispatched as for any
  toggle. All the component does against such a toggle is to render the checkbox of the
  problem with \<open>disabled\<close> set.
\<close>

theorem pending_toggle_is_not_rejected:
  assumes "pid \<in> updatingProblems st"
  shows "isUpdating st pid
       \<and> isProblemCompleted (userProgress (checkbox_onChange st pid now)) pid
           = (\<not> isProblemCompleted (userProgress st) pid)
       \<and> userProgress (checkbox_onChange st pid now) \<noteq> userProgress st
       \<and> posted (checkbox_onChange st pid now)
           = posted st @ [(pid, \<not> isProblemCompleted (userProgress st) pid)]
       \<and> userProgress (toggleProblemProgress st pid
            (isProblemCompleted (userProgress st) pid) now Fulfilled)
           = userProgress (checkbox_onChange st pid now)
       \<and> dispatched (toggleProblemProgress st pid
            (isProblemCompleted (userProgress st) pid) now Fulfilled)
           = dispatched st @ [''progressUpdated'']"
proof -
  let ?c = "isProblemCompleted (userProgress st) pid"
  have up: "userProgress (checkbox_onChange st pid now)
      = applyOptimistic pid (\<not> ?c) now (userProgress st)"
    by (simp add: checkbox_onChange_def toggle_begin_def Let_def)
  have flip: "isProblemCompleted (userProgress (checkbox_onChange st pid now)) pid = (\<not> ?c)"
    unfolding up by (rule isProblemCompleted_applyOptimistic)
  have ne: "userProgress (checkbox_onChange st pid now) \<noteq> userProgress st"
  proof
    assume "userProgress (checkbox_onChange st pid now) = userProgress st"
    with flip show False by simp
  qed
  have po: "posted (checkbox_onChange st pid now) = posted st @ [(pid, \<not> ?c)]"
    by (simp add: checkbox_onChange_def toggle_begin_def Let_def)
  have ok: "userProgress (toggleProblemProgress st pid ?c now Fulfilled)
      = userProgress (checkbox_onChange st pid now)"
    by (simp add: toggleProblemProgress_def toggle_settle_def checkbox_onChange_def
        toggle_begin_def Let_def)
  have ev: "dispatched (toggleProblemProgress st pid ?c now Fulfilled)
      = dispatched st @ [''progressUpdated'']"
    by (simp add: toggle_dispatched)
  from assms have "isUpdating st pid" by (simp add: isUpdating_def)
  with flip ne po ok ev show ?thesis by blast
qed

text \<open>The second toggle of a problem whose first toggle, from no record, is in flight.\<close>

theorem pending_toggle_is_not_rejected_witness:
  "''P'' \<in> updatingProblems
      \<lparr>userProgress = [\<lparr>p_id = ''temp-P-7'', problemId = ''P'', completed = True\<rparr>],
       updatingProblems = {''P''}, posted = [(''P'', True)], dispatched = []\<rparr>
   \<and> userProgress (checkbox_onChange
        \<lparr>userProgress = [\<lparr>p_id = ''temp-P-7'', problemId = ''P'', completed = True\<rparr>],
         updatingProblems = {''P''}, posted = [(''P'', True)], dispatched = []\<rparr> ''P'' 8)
     = [\<lparr>p_id = ''temp-P-7'', problemId = ''P'', completed = False\<rparr>]
   \<and> posted (checkbox_onChange
        \<lparr>userProgress = [\<lparr>p_id = ''temp-P-7'', problemId = ''P'', completed = True\<rparr>],
         updatingProblems = {''P''}, posted = [(''P'', True)], dispatched = []\<rparr> ''P'' 8)
     = [(''P'', True), (''P'', False)]"
  using pending_toggle_is_not_rejected
    [of "''P''"
        "\<lparr>userProgress = [\<lparr>p_id = ''temp-P-7'', problemId = ''P'', completed = True\<rparr>],
          updatingProblems = {''P''}, posted = [(''P'', True)], dispatched = []\<rparr>" 8]
  by (simp add: checkbox_onChange_def toggle_begin_def Let_def applyOptimistic_def
      isProblemCompleted_def)

text \<open>
  C5: a toggle of a problem that is shown as incomplete, whose request fails, leaves the
  problem incomplete and dispatches nothing; the same toggle with a request that
  succeeds dispatches \<open>progressUpdated\<close> once.
\<close>

theorem failed_toggle_rolls_back:
  assumes "\<not> isProblemCompleted (userProgress st) pid"
  shows "\<not> isProblemCompleted
            (userProgress (toggleProblemProgress st pid
               (isProblemCompleted (userProgress st) pid) now Rejected)) pid
       \<and> dispatched (toggleProblemProgress st pid
            (isProblemCompleted (userProgress st) pid) now Rejected) = dispatched st
       \<and> dispatched (toggleProblemProgress st pid
            (isProblemCompleted (userProgress st) pid) now Fulfilled)
          = dispatched st @ [''progressUpdated'']"
  using assms isProblemCompleted_rollback_same [of pid False]
  by (auto simp add: toggle_dispatched toggle_userProgress_Rejected)

theorem failed_toggle_rolls_back_witness:
  "\<not> isProblemCompleted
       [\<lparr>p_id = ''r1'', problemId = ''P'', completed = False\<rparr>] ''P''
   \<and> \<not> isProblemCompleted
        (userProgress (toggleProblemProgress
           \<lparr>userProgress = [\<lparr>p_id = ''r1'', problemId = ''P'', completed = False\<rparr>],
            updatingProblems = {}, posted = [], dispatched = []\<rparr>
           ''P'' False 7 Rejected)) ''P''
   \<and> dispatched (toggleProblemProgress
        \<lparr>userProgress = [\<lparr>p_id = ''r1'', problemId = ''P'', completed = False\<rparr>],
         updatingProblems = {}, posted = [], dispatched = []\<rparr>
        ''P'' False 7 Rejected) = []"
  using failed_toggle_rolls_back
    [of "\<lparr>userProgress = [\<lparr>p_id = ''r1'', problemId = ''P'', completed = False\<rparr>],
          updatingProblems = {}, posted = [], dispatched = []\<rparr>" "''P''" 7]
  by (simp add: isProblemCompleted_def)







section \<open>Properties of the double arithmetic\<close>

text \<open>The value of a double, with the exponent as a real power of two.\<close>

lemma pow2_ratio: "(2::real) ^ nat e / 2 ^ nat (- e) = 2 powr real_of_int e"
proof (cases "0 \<le> e")
  case True
  then have "(2::real) powr real_of_int e = 2 ^ nat e"
    by (metis powr_realpow zero_less_numeral of_nat_nat)
  with True show ?thesis by simp
next
  case False
  then have "(2::real) powr real_of_int (- e) = 2 ^ nat (- e)"
    by (metis of_nat_nat powr_realpow zero_less_numeral neg_0_le_iff_le linear)
  moreover have "(2::real) powr real_of_int e = 1 / 2 powr (- real_of_int e)"
    by (simp add: powr_minus_divide)
  ultimately have "(2::real) powr real_of_int e = 1 / 2 ^ nat (- e)"
    by simp
  with False show ?thesis by simp
qed

lemma double_val_powr: "double_val (m, e) = real_of_int m * 2 powr real_of_int e"
proof -
  have "double_val (m, e) = real_of_int m * (2 ^ nat e / 2 ^ nat (- e))"
    by (simp add: double_val_def)
  then show ?thesis
    by (simp only: pow2_ratio)
qed

lemma scaled_ratio:
  assumes "scaled a b e = (n, d)" and "0 < b"
  shows "0 < d" and "real_of_int n / real_of_int d = (real_of_int a / real_of_int b) / 2 powr real_of_int e"
proof -
  from assms(1) have n: "n = a * 2 ^ nat (- e)" and d: "d = b * 2 ^ nat e"
    by (simp_all add: scaled_def)
  show "0 < d" using assms(2) d by simp
  have "real_of_int n / real_of_int d
      = (real_of_int a / real_of_int b) * (2 ^ nat (- e) / 2 ^ nat e)"
    by (simp add: n d)
  also have "(2::real) ^ nat (- e) / 2 ^ nat e = 1 / (2 ^ nat e / 2 ^ nat (- e))"
    by simp
  also have "\<dots> = 1 / 2 powr real_of_int e"
    by (simp only: pow2_ratio)
  finally show "real_of_int n / real_of_int d = (real_of_int a / real_of_int b) / 2 powr real_of_int e"
    by simp
qed

text \<open>Rounding moves the scaled fraction by one half at most.\<close>

lemma round_nearest_even_int:
  assumes "0 < d"
  shows "2 * \<bar>round_nearest_even n d * d - n\<bar> \<le> d"
proof -
  define q where "q = n div d"
  define r where "r = n mod d"
  have n: "n = q * d + r" by (simp add: q_def r_def)
  have r: "0 \<le> r" "r < d" using assms by (simp_all add: r_def)
  consider "2 * r < d" | "d < 2 * r" | "2 * r = d" by linarith
  then show ?thesis
  proof cases
    case 1
    then have "round_nearest_even n d = q"
      by (simp add: round_nearest_even_def Let_def q_def r_def)
    then show ?thesis using 1 r n by simp
  next
    case 2
    then have "round_nearest_even n d = q + 1"
      by (simp add: round_nearest_even_def Let_def q_def r_def)
    then have "round_nearest_even n d * d - n = d - r"
      using n by (simp add: algebra_simps)
    then show ?thesis using 2 r by simp
  next
    case 3
    then have "round_nearest_even n d = q \<or> round_nearest_even n d = q + 1"
      by (simp add: round_nearest_even_def Let_def q_def r_def)
    then have "round_nearest_even n d * d - n = - r \<or> round_nearest_even n d * d - n = d - r"
      using n by (auto simp add: algebra_simps)
    then show ?thesis using 3 r by auto
  qed
qed

lemma round_nearest_even_real:
  assumes "0 < d"
  shows "\<bar>real_of_int (round_nearest_even n d) - real_of_int n / real_of_int d\<bar> \<le> 1 / 2"
proof -
  let ?m = "round_nearest_even n d"
  have "real_of_int (2 * \<bar>?m * d - n\<bar>) \<le> real_of_int d"
    using round_nearest_even_int [OF assms, of n] by (simp only: of_int_le_iff)
  then have "2 * \<bar>real_of_int ?m * real_of_int d - real_of_int n\<bar> \<le> real_of_int d"
    by simp
  moreover have "real_of_int ?m * real_of_int d - real_of_int n
      = (real_of_int ?m - real_of_int n / real_of_int d) * real_of_int d"
    using assms by (simp add: field_simps)
  ultimately have "2 * (\<bar>real_of_int ?m - real_of_int n / real_of_int d\<bar> * real_of_int d) \<le> real_of_int d"
    using assms by (simp add: abs_mult)
  then have "(2 * \<bar>real_of_int ?m - real_of_int n / real_of_int d\<bar>) * real_of_int d \<le> 1 * real_of_int d"
    by (simp add: mult.assoc)
  then have "2 * \<bar>real_of_int ?m - real_of_int n / real_of_int d\<bar> \<le> 1"
    using assms by (simp only: mult_le_cancel_right) 
  then show ?thesis by simp
qed

text \<open>\<open>Math.round\<close> is \<open>\<lfloor>x + 1/2\<rfloor>\<close>, hence within one half of its argument.\<close>

lemma Math_round_floor: "Math_round (m, e) = \<lfloor>double_val (m, e) + 1 / 2\<rfloor>"
proof -
  let ?D = "(2::int) ^ nat (- e)"
  have D: "0 < ?D" by simp
  have "Math_round (m, e) = (2 * m * 2 ^ nat e + ?D) div (2 * ?D)"
    by (simp add: Math_round_def)
  also have "\<dots> = \<lfloor>real_of_int (2 * m * 2 ^ nat e + ?D) / real_of_int (2 * ?D)\<rfloor>"
    by (simp only: floor_divide_of_int_eq)
  also have "real_of_int (2 * m * 2 ^ nat e + ?D) / real_of_int (2 * ?D)
      = real_of_int m * 2 ^ nat e / 2 ^ nat (- e) + 1 / 2"
    by (simp add: field_simps)
  finally show ?thesis by (simp add: double_val_def)
qed

lemma Math_round_near: "\<bar>real_of_int (Math_round x) - double_val x\<bar> \<le> 1 / 2"
proof -
  obtain m e where x: "x = (m, e)" by (cases x)
  have "real_of_int \<lfloor>double_val x + 1 / 2\<rfloor> \<le> double_val x + 1 / 2"
    by (rule of_int_floor_le)
  moreover have "double_val x + 1 / 2 < real_of_int \<lfloor>double_val x + 1 / 2\<rfloor> + 1"
    by linarith
  ultimately show ?thesis
    unfolding x Math_round_floor by linarith
qed

lemma pow2_powr: "0 \<le> k \<Longrightarrow> real_of_int ((2::int) ^ nat k) = 2 powr real_of_int k"
proof -
  assume "0 \<le> k"
  then have "(2::real) powr real_of_int k = 2 ^ nat k"
    by (metis of_nat_nat powr_realpow zero_less_numeral)
  then show ?thesis by simp
qed

lemma bitlen_real_bounds:
  assumes "0 < x"
  shows "2 powr real_of_int (bitlen x - 1) \<le> real_of_int x"
    and "real_of_int x < 2 powr real_of_int (bitlen x)"
proof -
  have b: "2 ^ nat (bitlen x - 1) \<le> x" "x < 2 ^ nat (bitlen x)"
    using bitlen_bounds [OF assms] by simp_all
  have pos: "1 \<le> bitlen x"
    using assms bitlen_eq_zero_iff [of x] bitlen_nonneg [of x] by linarith
  have "real_of_int (2 ^ nat (bitlen x - 1)) \<le> real_of_int x"
    using b(1) by (simp only: of_int_le_iff)
  then show "2 powr real_of_int (bitlen x - 1) \<le> real_of_int x"
    using pos by (simp only: pow2_powr)
  have "real_of_int x < real_of_int (2 ^ nat (bitlen x))"
    using b(2) by (simp only: of_int_less_iff)
  then show "real_of_int x < 2 powr real_of_int (bitlen x)"
    using pos by (simp only: pow2_powr)
qed

text \<open>
  The exponent chosen from the bit lengths puts the scaled fraction at \<open>2^52\<close> or above,
  so one half of a unit in the last place is at most \<open>2^-53\<close> of the value.
\<close>

lemma quotient_lower:
  assumes "0 < a" "0 < b"
  shows "2 ^ 52 \<le> (real_of_int a / real_of_int b) / 2 powr real_of_int (bitlen a - bitlen b - 53)"
proof -
  let ?la = "real_of_int (bitlen a)"
  let ?lb = "real_of_int (bitlen b)"
  have a: "2 powr (?la - 1) \<le> real_of_int a"
    using bitlen_real_bounds(1) [OF assms(1)] by simp
  have b: "real_of_int b < 2 powr ?lb"
    using bitlen_real_bounds(2) [OF assms(2)] by simp
  have bpos: "0 < real_of_int b" using assms(2) by simp
  have "2 powr (?la - 1) * 1 \<le> real_of_int a * (2 powr ?lb / real_of_int b)"
  proof (rule mult_mono)
    show "2 powr (?la - 1) \<le> real_of_int a" by (rule a)
    show "1 \<le> 2 powr ?lb / real_of_int b" using b bpos by simp
    show "0 \<le> real_of_int a" using assms(1) by simp
    show "(0::real) \<le> 1" by simp
  qed
  then have "2 powr (?la - 1) / 2 powr ?lb \<le> real_of_int a / real_of_int b"
    using bpos by (simp add: field_simps)
  then have "2 powr (?la - 1 - ?lb) \<le> real_of_int a / real_of_int b"
    by (simp only: powr_diff)
  then have "2 powr (?la - 1 - ?lb) / 2 powr (?la - ?lb - 53)
      \<le> (real_of_int a / real_of_int b) / 2 powr (?la - ?lb - 53)"
    by (rule divide_right_mono) simp
  moreover have "2 powr (?la - 1 - ?lb) / 2 powr (?la - ?lb - 53) = (2::real) powr 52"
    by (simp add: powr_diff [symmetric])
  moreover have "(2::real) powr 52 = 2 ^ 52"
    by simp
  ultimately show ?thesis by (simp only: of_int_diff of_int_numeral)
qed

lemma quotient_upper:
  assumes "0 < a" "0 < b"
  shows "(real_of_int a / real_of_int b) / 2 powr real_of_int (bitlen a - bitlen b - 53) < 2 ^ 54"
proof -
  let ?la = "real_of_int (bitlen a)"
  let ?lb = "real_of_int (bitlen b)"
  have a: "real_of_int a < 2 powr ?la"
    using bitlen_real_bounds(2) [OF assms(1)] by simp
  have b: "2 powr (?lb - 1) \<le> real_of_int b"
    using bitlen_real_bounds(1) [OF assms(2)] by simp
  have bpos: "0 < real_of_int b" using assms(2) by simp
  have "real_of_int a * 2 powr (?lb - 1) < 2 powr ?la * real_of_int b"
  proof (rule mult_less_le_imp_less)
    show "real_of_int a < 2 powr ?la" by (rule a)
    show "2 powr (?lb - 1) \<le> real_of_int b" by (rule b)
    show "0 \<le> real_of_int a" using assms(1) by simp
    show "0 < 2 powr (?lb - 1)" by simp
  qed
  then have "real_of_int a / real_of_int b < 2 powr ?la / 2 powr (?lb - 1)"
    using bpos by (simp add: field_simps)
  then have "real_of_int a / real_of_int b < 2 powr (?la - (?lb - 1))"
    by (simp only: powr_diff)
  then have "(real_of_int a / real_of_int b) / 2 powr (?la - ?lb - 53)
      < 2 powr (?la - (?lb - 1)) / 2 powr (?la - ?lb - 53)"
    by (rule divide_strict_right_mono) simp
  moreover have "2 powr (?la - (?lb - 1)) / 2 powr (?la - ?lb - 53) = (2::real) powr 54"
    by (simp add: powr_diff [symmetric])
  moreover have "(2::real) powr 54 = 2 ^ 54"
    by simp
  ultimately show ?thesis by (simp only: of_int_diff of_int_numeral)
qed

text \<open>
  How a nonzero quotient is rounded: the fraction \<open>(a / b) / 2 ^ e\<close> lies in
  \<open>[2^52, 2^53)\<close> and is rounded to the nearest integer.
\<close>

lemma double_of_quotient_normalised:
  assumes "0 < a" "0 < b"
  obtains n d e where
    "double_of_quotient a b = (round_nearest_even n d, e)"
    "0 < d"
    "real_of_int n / real_of_int d = (real_of_int a / real_of_int b) / 2 powr real_of_int e"
    "2 ^ 52 \<le> real_of_int n / real_of_int d"
    "real_of_int n / real_of_int d < 2 ^ 53"
proof -
  define v where "v = real_of_int a / real_of_int b"
  define e0 where "e0 = bitlen a - bitlen b - 53"
  obtain n0 d0 where s0: "scaled a b e0 = (n0, d0)" by (cases "scaled a b e0")
  define e where "e = (if 2 ^ 53 * d0 \<le> n0 then e0 + 1 else e0)"
  obtain n d where s: "scaled a b e = (n, d)" by (cases "scaled a b e")
  define P where "P = 2 powr real_of_int e"
  define P0 where "P0 = 2 powr real_of_int e0"
  have dq: "double_of_quotient a b = (round_nearest_even n d, e)"
    using assms(1) s0 s by (simp add: double_of_quotient_def Let_def e0_def [symmetric] e_def)
  have d0: "0 < d0" and r0: "real_of_int n0 / real_of_int d0 = v / P0"
    using scaled_ratio [OF s0 assms(2)] by (simp_all only: v_def P0_def)
  have d: "0 < d" and r: "real_of_int n / real_of_int d = v / P"
    using scaled_ratio [OF s assms(2)] by (simp_all only: v_def P_def)
  have base: "2 ^ 52 \<le> v / P0"
    unfolding e0_def v_def P0_def using assms by (rule quotient_lower)
  have top: "v / P0 < 2 ^ 54"
    unfolding e0_def v_def P0_def using assms by (rule quotient_upper)
  have test: "(2 ^ 53 * d0 \<le> n0) = (2 ^ 53 \<le> v / P0)"
  proof -
    have "(2 ^ 53 * d0 \<le> n0) = (real_of_int (2 ^ 53 * d0) \<le> real_of_int n0)"
      by (simp only: of_int_le_iff)
    also have "\<dots> = (2 ^ 53 * real_of_int d0 \<le> real_of_int n0)"
      by simp
    also have "\<dots> = (2 ^ 53 \<le> real_of_int n0 / real_of_int d0)"
      using d0 by (simp add: pos_le_divide_eq)
    finally show ?thesis by (simp only: r0)
  qed
  have range: "2 ^ 52 \<le> v / P \<and> v / P < 2 ^ 53"
  proof (cases "2 ^ 53 * d0 \<le> n0")
    case True
    then have big: "2 ^ 53 \<le> v / P0"
      by (simp only: test)
    have eq: "P = P0 * 2"
      using True by (simp add: e_def powr_add P_def P0_def)
    have half: "v / P = (v / P0) / 2"
      unfolding eq by simp
    have "(2::real) ^ 52 \<le> (v / P0) / 2"
      using big by simp
    moreover have "(v / P0) / 2 < 2 ^ 53"
      using top by simp
    ultimately show ?thesis
      by (simp only: half)
  next
    case False
    then have small: "v / P0 < 2 ^ 53"
      by (simp only: test not_le)
    have "P = P0"
      using False by (simp add: e_def P_def P0_def)
    with base small show ?thesis by simp
  qed
  show thesis
  proof (rule that [of n d e])
    show "double_of_quotient a b = (round_nearest_even n d, e)" by (rule dq)
    show "0 < d" by (rule d)
    show "real_of_int n / real_of_int d = real_of_int a / real_of_int b / 2 powr real_of_int e"
      using r by (simp only: v_def P_def)
    show "2 ^ 52 \<le> real_of_int n / real_of_int d"
      using range by (simp only: r)
    show "real_of_int n / real_of_int d < 2 ^ 53"
      using range by (simp only: r)
  qed
qed

text \<open>The significand of a nonzero result has 53 bits (or is the next power of two).\<close>

lemma double_of_quotient_significand:
  assumes "0 < a" "0 < b"
  shows "2 ^ 52 \<le> fst (double_of_quotient a b) \<and> fst (double_of_quotient a b) \<le> 2 ^ 53"
proof -
  obtain n d e where dq: "double_of_quotient a b = (round_nearest_even n d, e)"
    and d: "0 < d"
    and lo: "2 ^ 52 \<le> real_of_int n / real_of_int d"
    and hi: "real_of_int n / real_of_int d < 2 ^ 53"
    using double_of_quotient_normalised [OF assms] by blast
  have "2 ^ 52 * real_of_int d \<le> real_of_int n"
    using lo d by (simp add: pos_le_divide_eq)
  then have "real_of_int (2 ^ 52 * d) \<le> real_of_int n" by simp
  then have "2 ^ 52 * d \<le> n" by (simp only: of_int_le_iff)
  then have "d * 2 ^ 52 \<le> n" by (simp add: mult.commute)
  then have "(d * 2 ^ 52) div d \<le> n div d"
    using d by (rule zdiv_mono1)
  then have q_lo: "2 ^ 52 \<le> n div d"
    using d by simp
  have "real_of_int n < 2 ^ 53 * real_of_int d"
    using hi d by (simp add: pos_divide_less_eq)
  then have "real_of_int n < real_of_int (2 ^ 53 * d)" by simp
  then have "n < 2 ^ 53 * d" by (simp only: of_int_less_iff)
  then have "n < d * 2 ^ 53" by (simp add: mult.commute)
  moreover have "d * (n div d) \<le> n"
  proof -
    have "d * (n div d) + n mod d = n" by (rule mult_div_mod_eq)
    moreover have "0 \<le> n mod d" using d by simp
    ultimately show ?thesis by linarith
  qed
  ultimately have "d * (n div d) < d * 2 ^ 53" by linarith
  then have q_hi: "n div d < 2 ^ 53"
    using d by (simp only: mult_less_cancel_left_pos)
  have "n div d \<le> round_nearest_even n d" "round_nearest_even n d \<le> n div d + 1"
    by (simp_all add: round_nearest_even_def Let_def)
  with q_lo q_hi show ?thesis
    by (simp add: dq)
qed

text \<open>The rounding error is at most \<open>2^-53\<close> of the exact quotient.\<close>

lemma double_of_quotient_error:
  assumes "0 \<le> a" "0 < b"
  shows "\<bar>double_val (double_of_quotient a b) - real_of_int a / real_of_int b\<bar>
         \<le> (real_of_int a / real_of_int b) / 2 ^ 53"
proof (cases "a = 0")
  case True
  then show ?thesis by (simp add: double_of_quotient_def double_val_def)
next
  case False
  with assms(1) have apos: "0 < a" by simp
  define v where "v = real_of_int a / real_of_int b"
  obtain n d e where dq: "double_of_quotient a b = (round_nearest_even n d, e)"
    and d: "0 < d"
    and r: "real_of_int n / real_of_int d = v / 2 powr real_of_int e"
    and lo: "2 ^ 52 \<le> real_of_int n / real_of_int d"
    unfolding v_def using double_of_quotient_normalised [OF apos assms(2)] by blast
  define m where "m = round_nearest_even n d"
  define P where "P = 2 powr real_of_int e"
  have Ppos: "0 < P" by (simp add: P_def)
  have lower: "2 ^ 52 \<le> v / P"
    using lo by (simp only: r P_def)
  have P_le: "P * 2 ^ 52 \<le> v"
    using lower Ppos by (simp add: pos_le_divide_eq mult.commute)
  have near: "\<bar>real_of_int m - v / P\<bar> \<le> 1 / 2"
    using round_nearest_even_real [OF d, of n] by (simp only: r m_def P_def)
  have "double_val (m, e) = real_of_int m * P"
    by (simp only: double_val_powr P_def)
  then have "double_val (m, e) - v = (real_of_int m - v / P) * P"
    using Ppos by (simp add: field_simps)
  then have "\<bar>double_val (m, e) - v\<bar> = \<bar>real_of_int m - v / P\<bar> * P"
    using Ppos by (simp add: abs_mult)
  also have "\<dots> \<le> (1 / 2) * P"
    using near Ppos by (simp only: mult_le_cancel_right) simp
  also have "\<dots> = (P * 2 ^ 52) / 2 ^ 53"
    by simp
  also have "\<dots> \<le> v / 2 ^ 53"
    using P_le by (rule divide_right_mono) simp
  finally show ?thesis
    by (simp only: dq v_def m_def)
qed

lemma double_of_quotient_nonneg:
  assumes "0 \<le> a" "0 < b"
  shows "0 \<le> fst (double_of_quotient a b)"
proof (cases "a = 0")
  case True
  then show ?thesis by (simp add: double_of_quotient_def)
next
  case False
  with assms(1) have "0 < a" by simp
  from this assms(2) have "2 ^ 52 \<le> fst (double_of_quotient a b)"
    by (rule double_of_quotient_significand [THEN conjunct1])
  then show ?thesis by simp
qed

lemma double_mult_error:
  assumes "0 \<le> fst x" "0 \<le> k"
  shows "\<bar>double_val (double_mult x k) - double_val x * real_of_int k\<bar>
         \<le> (double_val x * real_of_int k) / 2 ^ 53"
proof -
  obtain m e where x: "x = (m, e)" by (cases x)
  let ?a = "m * k * 2 ^ nat e"
  let ?b = "(2::int) ^ nat (- e)"
  have a: "0 \<le> ?a" using assms x by simp
  have b: "0 < ?b" by simp
  have "real_of_int ?a / real_of_int ?b = double_val x * real_of_int k"
    by (simp add: x double_val_def)
  moreover have "double_mult x k = double_of_quotient ?a ?b"
    by (simp add: x double_mult_def)
  ultimately show ?thesis
    using double_of_quotient_error [OF a b] by simp
qed

text \<open>
  Two roundings and \<open>Math.round\<close>: the percentage lies within \<open>1/2 + 300 / 2^53\<close> of
  the exact \<open>100 * c / t\<close>, and both are multiples of \<open>1 / (2 * t)\<close>.
\<close>

lemma percentage_of_real:
  assumes "0 \<le> c" "c \<le> t" "0 < t"
  shows "\<bar>real_of_int (percentage_of c t) - 100 * (real_of_int c / real_of_int t)\<bar>
         \<le> 1 / 2 + 300 / 2 ^ 53"
proof -
  define eps where "eps = (1::real) / 2 ^ 53"
  define v where "v = real_of_int c / real_of_int t"
  define x where "x = double_val (double_div c t)"
  define y where "y = double_val (double_mult (double_div c t) 100)"
  have eps: "0 \<le> eps" "eps \<le> 1"
    by (simp_all add: eps_def)
  have v: "0 \<le> v" "v \<le> 1"
    using assms by (simp_all add: v_def)
  have "\<bar>x - v\<bar> \<le> v / 2 ^ 53"
    unfolding x_def v_def double_div_def using assms(1) assms(3)
    by (rule double_of_quotient_error)
  also have "v / 2 ^ 53 = v * eps"
    by (simp add: eps_def)
  also have "v * eps \<le> 1 * eps"
    using v(2) eps(1) by (rule mult_right_mono)
  finally have xv: "\<bar>x - v\<bar> \<le> eps"
    by simp
  have x: "0 \<le> x \<or> x < 0" "x \<le> 2"
    using xv v eps by linarith+
  have "0 \<le> fst (double_div c t)"
    unfolding double_div_def using assms(1) assms(3) by (rule double_of_quotient_nonneg)
  then have "\<bar>y - x * 100\<bar> \<le> (x * 100) / 2 ^ 53"
    unfolding y_def x_def using double_mult_error [of "double_div c t" 100] by simp
  also have "(x * 100) / 2 ^ 53 = x * (100 * eps)"
    by (simp add: eps_def)
  also have "x * (100 * eps) \<le> 2 * (100 * eps)"
  proof (rule mult_right_mono)
    show "x \<le> 2" by (rule x(2))
    show "0 \<le> 100 * eps" using eps(1) by simp
  qed
  finally have yx: "\<bar>y - x * 100\<bar> \<le> 200 * eps"
    by simp
  have p: "\<bar>real_of_int (percentage_of c t) - y\<bar> \<le> 1 / 2"
    using assms(3) Math_round_near [of "double_mult (double_div c t) 100"]
    by (simp add: percentage_of_def y_def)
  have "\<bar>real_of_int (percentage_of c t) - 100 * v\<bar> \<le> 1 / 2 + 300 * eps"
    using p yx xv by linarith
  then show ?thesis by (simp only: v_def eps_def)
qed

lemma percentage_of_nearest:
  assumes "0 \<le> c" "c \<le> t" "0 < t" "t < 2 ^ 32"
  shows "\<bar>2 * t * percentage_of c t - 200 * c\<bar> \<le> t"
proof -
  define p where "p = percentage_of c t"
  define v where "v = real_of_int c / real_of_int t"
  have tpos: "0 < real_of_int t" using assms(3) by simp
  have tb: "real_of_int t < 2 ^ 32"
    using assms(4) by (metis of_int_less_iff of_int_numeral of_int_power)
  have near: "\<bar>real_of_int p - 100 * v\<bar> \<le> 1 / 2 + 300 / 2 ^ 53"
    unfolding p_def v_def using assms(1) assms(2) assms(3) by (rule percentage_of_real)
  have "real_of_int (2 * t * p - 200 * c) = 2 * real_of_int t * (real_of_int p - 100 * v)"
    using tpos by (simp add: v_def field_simps)
  then have "\<bar>real_of_int (2 * t * p - 200 * c)\<bar>
      = 2 * real_of_int t * \<bar>real_of_int p - 100 * v\<bar>"
    using tpos by (simp add: abs_mult)
  also have "\<dots> \<le> 2 * real_of_int t * (1 / 2 + 300 / 2 ^ 53)"
    using near tpos by (simp only: mult_le_cancel_left_pos)
  also have "\<dots> = real_of_int t + real_of_int t * (600 / 2 ^ 53)"
    by (simp add: algebra_simps)
  also have "\<dots> < real_of_int t + 1"
    using tb tpos by simp
  finally have "real_of_int \<bar>2 * t * p - 200 * c\<bar> < real_of_int (t + 1)"
    by simp
  then have "\<bar>2 * t * p - 200 * c\<bar> < t + 1"
    by (simp only: of_int_less_iff)
  then show ?thesis by (simp add: p_def)
qed

lemma percentage_of_round_half_up:
  assumes "0 \<le> c" "c \<le> t" "0 < t" "t < 2 ^ 32" "(200 * c) mod (2 * t) \<noteq> t"
  shows "percentage_of c t = round_half_up_percent c t"
proof -
  define p where "p = percentage_of c t"
  have near: "\<bar>2 * t * p - 200 * c\<bar> \<le> t"
    unfolding p_def using assms(1) assms(2) assms(3) assms(4) by (rule percentage_of_nearest)
  have ne1: "2 * t * p - 200 * c \<noteq> t"
  proof
    assume "2 * t * p - 200 * c = t"
    then have "200 * c = t + (p - 1) * (2 * t)" by (simp add: algebra_simps)
    moreover have "(t + (p - 1) * (2 * t)) mod (2 * t) = t mod (2 * t)" by (rule mod_mult_self1)
    ultimately have "(200 * c) mod (2 * t) = t mod (2 * t)" by simp
    with assms(3) assms(5) show False by simp
  qed
  have ne2: "2 * t * p - 200 * c \<noteq> - t"
  proof
    assume "2 * t * p - 200 * c = - t"
    then have "200 * c = t + p * (2 * t)" by (simp add: algebra_simps)
    moreover have "(t + p * (2 * t)) mod (2 * t) = t mod (2 * t)" by (rule mod_mult_self1)
    ultimately have "(200 * c) mod (2 * t) = t mod (2 * t)" by simp
    with assms(3) assms(5) show False by simp
  qed
  from near ne1 ne2 have strict: "- t < 2 * t * p - 200 * c" "2 * t * p - 200 * c < t"
    by linarith+
  define r where "r = 200 * c + t - 2 * t * p"
  have "200 * c + t = (2 * t) * p + r" by (simp add: r_def)
  moreover have "0 \<le> r" "r < 2 * t" using strict by (simp_all add: r_def)
  ultimately have "(200 * c + t) div (2 * t) = p"
    by (metis div_mult_self4 div_pos_pos_trivial add.commute add_0 assms(3) mult_pos_pos zero_less_numeral less_irrefl)
  then show ?thesis by (simp add: round_half_up_percent_def p_def)
qed

section \<open>Properties of the topic statistics\<close>

lemma percentage_of_zero_total: "percentage_of c 0 = 0"
  by (simp add: percentage_of_def)

lemma percentage_23_of_40: "percentage_of 23 40 = 57"
  by code_simp

lemma dashboard_card_stats_decorated:
  "map dashboard_card_stats (topicsWithProgress topicsData ps) =
   map (\<lambda>tp. \<lparr>ts_total = int (length (problems tp)),
               ts_completed = int (length (filter
                 (\<lambda>problem. problem_id problem \<in> completedProblems ps) (problems tp))),
               ts_percentage = percentage_of
                 (int (length (filter
                    (\<lambda>problem. problem_id problem \<in> completedProblems ps) (problems tp))))
                 (int (length (problems tp)))\<rparr>) topicsData"
  by (simp add: topicsWithProgress_def dashboard_card_stats_def Let_def comp_def)


text \<open>
  C9, as the code has it. TopicDetail and the Dashboard cards show, for a topic, the
  number of its problems, the number of its problems whose completion flag is set (by
  \<open>isProblemCompleted\<close> in TopicDetail, by membership in the set of completed
  problems in the Dashboard), and the percentage computed from the two. The percentage
  is 0 for a total of 0. For a total \<open>t\<close> above 0 and below \<open>2^32\<close>, the bound on
  the length of an array, and \<open>c \<le> t\<close> completed, it is an integer nearest to
  \<open>100 * c / t\<close>; it is the round-half-up value whenever \<open>100 * c / t\<close> is not
  exactly halfway between two integers.
\<close>

theorem topic_stats_correct:
  "topicDetail_stats tp up =
     \<lparr>ts_total = int (length (problems tp)),
      ts_completed = int (length (filter
        (\<lambda>problem. isProblemCompleted up (problem_id problem)) (problems tp))),
      ts_percentage = percentage_of
        (int (length (filter
           (\<lambda>problem. isProblemCompleted up (problem_id problem)) (problems tp))))
        (int (length (problems tp)))\<rparr>
   \<and> map dashboard_card_stats (topicsWithProgress topicsData ps) =
       map (\<lambda>tp. \<lparr>ts_total = int (length (problems tp)),
               ts_completed = int (length (filter
                 (\<lambda>problem. problem_id problem \<in> completedProblems ps) (problems tp))),
               ts_percentage = percentage_of
                 (int (length (filter
                    (\<lambda>problem. problem_id problem \<in> completedProblems ps) (problems tp))))
                 (int (length (problems tp)))\<rparr>) topicsData
   \<and> percentage_of c 0 = 0
   \<and> (0 \<le> c \<and> c \<le> t \<and> 0 < t \<and> t < 2 ^ 32 \<longrightarrow>
        \<bar>2 * t * percentage_of c t - 200 * c\<bar> \<le> t
        \<and> ((200 * c) mod (2 * t) \<noteq> t \<longrightarrow>
             percentage_of c t = round_half_up_percent c t))"
proof -
  have "topicDetail_stats tp up =
     \<lparr>ts_total = int (length (problems tp)),
      ts_completed = int (length (filter
        (\<lambda>problem. isProblemCompleted up (problem_id problem)) (problems tp))),
      ts_percentage = percentage_of
        (int (length (filter
           (\<lambda>problem. isProblemCompleted up (problem_id problem)) (problems tp))))
        (int (length (problems tp)))\<rparr>"
    by (simp add: topicDetail_stats_def Let_def)
  moreover note dashboard_card_stats_decorated [of topicsData ps] percentage_of_zero_total [of c]
  moreover have "\<bar>2 * t * percentage_of c t - 200 * c\<bar> \<le> t"
    if "0 \<le> c \<and> c \<le> t \<and> 0 < t \<and> t < 2 ^ 32"
    using that by (simp add: percentage_of_nearest)
  moreover have "percentage_of c t = round_half_up_percent c t"
    if "0 \<le> c \<and> c \<le> t \<and> 0 < t \<and> t < 2 ^ 32" and "(200 * c) mod (2 * t) \<noteq> t"
    using that by (simp add: percentage_of_round_half_up)
  ultimately show ?thesis by blast
qed


text \<open>Four problems, two of them completed: 50 percent.\<close>

theorem topic_stats_correct_witness:
  "(0::int) \<le> 2 \<and> (2::int) \<le> 4 \<and> (0::int) < 4 \<and> (4::int) < 2 ^ 32
   \<and> (200 * 2) mod (2 * 4) \<noteq> (4::int)
   \<and> topicDetail_stats
        \<lparr>topic_id = ''t1'', topic_title = ''Arrays'',
         problems = [\<lparr>problem_id = ''p1'', problem_title = ''T1''\<rparr>,
                     \<lparr>problem_id = ''p2'', problem_title = ''T2''\<rparr>,
                     \<lparr>problem_id = ''p3'', problem_title = ''T3''\<rparr>,
                     \<lparr>problem_id = ''p4'', problem_title = ''T4''\<rparr>]\<rparr>
        [\<lparr>p_id = ''r1'', problemId = ''p1'', completed = True\<rparr>,
         \<lparr>p_id = ''r2'', problemId = ''p2'', completed = False\<rparr>,
         \<lparr>p_id = ''r3'', problemId = ''p3'', completed = True\<rparr>]
      = \<lparr>ts_total = 4, ts_completed = 2, ts_percentage = 50\<rparr>"
  using topic_stats_correct
    [of "\<lparr>topic_id = ''t1'', topic_title = ''Arrays'',
         problems = [\<lparr>problem_id = ''p1'', problem_title = ''T1''\<rparr>,
                     \<lparr>problem_id = ''p2'', problem_title = ''T2''\<rparr>,
                     \<lparr>problem_id = ''p3'', problem_title = ''T3''\<rparr>,
                     \<lparr>problem_id = ''p4'', problem_title = ''T4''\<rparr>]\<rparr>"
        "[\<lparr>p_id = ''r1'', problemId = ''p1'', completed = True\<rparr>,
         \<lparr>p_id = ''r2'', problemId = ''p2'', completed = False\<rparr>,
         \<lparr>p_id = ''r3'', problemId = ''p3'', completed = True\<rparr>]"
        "[]" "[]" 2 4]
  by (simp add: isProblemCompleted_def round_half_up_percent_def)


text \<open>
  C9 as stated fails at an exact half: with 23 of 40 problems completed the quotient
  \<open>23 / 40\<close> is the double just below 0.575, its product with 100 the double just
  below 57.5, and \<open>Math.round\<close> yields 57, where round-half-up of 57.5 is 58.
\<close>

theorem percentage_round_half_up_counterexample:
  "topicDetail_stats
     \<lparr>topic_id = ''t1'', topic_title = ''Arrays'',
      problems = [\<lparr>problem_id = ''p01'', problem_title = ''T01''\<rparr>,
                  \<lparr>problem_id = ''p02'', problem_title = ''T02''\<rparr>,
                  \<lparr>problem_id = ''p03'', problem_title = ''T03''\<rparr>,
                  \<lparr>problem_id = ''p04'', problem_title = ''T04''\<rparr>,
                  \<lparr>problem_id = ''p05'', problem_title = ''T05''\<rparr>,
                  \<lparr>problem_id = ''p06'', problem_title = ''T06''\<rparr>,
                  \<lparr>problem_id = ''p07'', problem_title = ''T07''\<rparr>,
                  \<lparr>problem_id = ''p08'', problem_title = ''T08''\<rparr>,
                  \<lparr>problem_id = ''p09'', problem_title = ''T09''\<rparr>,
                  \<lparr>problem_id = ''p10'', problem_title = ''T10''\<rparr>,
                  \<lparr>problem_id = ''p11'', problem_title = ''T11''\<rparr>,
                  \<lparr>problem_id = ''p12'', problem_title = ''T12''\<rparr>,
                  \<lparr>problem_id = ''p13'', problem_title = ''T13''\<rparr>,
                  \<lparr>problem_id = ''p14'', problem_title = ''T14''\<rparr>,
                  \<lparr>problem_id = ''p15'', problem_title = ''T15''\<rparr>,
                  \<lparr>problem_id = ''p16'', problem_title = ''T16''\<rparr>,
                  \<lparr>problem_id = ''p17'', problem_title = ''T17''\<rparr>,
                  \<lparr>problem_id = ''p18'', problem_title = ''T18''\<rparr>,
                  \<lparr>problem_id = ''p19'', problem_title = ''T19''\<rparr>,
                  \<lparr>problem_id = ''p20'', problem_title = ''T20''\<rparr>,
                  \<lparr>problem_id = ''p21'', problem_title = ''T21''\<rparr>,
                  \<lparr>problem_id = ''p22'', problem_title = ''T22''\<rparr>,
                  \<lparr>problem_id = ''p23'', problem_title = ''T23''\<rparr>,
                  \<lparr>problem_id = ''p24'', problem_title = ''T24''\<rparr>,
                  \<lparr>problem_id = ''p25'', problem_title = ''T25''\<rparr>,
                  \<lparr>problem_id = ''p26'', problem_title = ''T26''\<rparr>,
                  \<lparr>problem_id = ''p27'', problem_title = ''T27''\<rparr>,
                  \<lparr>problem_id = ''p28'', problem_title = ''T28''\<rparr>,
                  \<lparr>problem_id = ''p29'', problem_title = ''T29''\<rparr>,
                  \<lparr>problem_id = ''p30'', problem_title = ''T30''\<rparr>,
                  \<lparr>problem_id = ''p31'', problem_title = ''T31''\<rparr>,
                  \<lparr>problem_id = ''p32'', problem_title = ''T32''\<rparr>,
                  \<lparr>problem_id = ''p33'', problem_title = ''T33''\<rparr>,
                  \<lparr>problem_id = ''p34'', problem_title = ''T34''\<rparr>,
                  \<lparr>problem_id = ''p35'', problem_title = ''T35''\<rparr>,
                  \<lparr>problem_id = ''p36'', problem_title = ''T36''\<rparr>,
                  \<lparr>problem_id = ''p37'', problem_title = ''T37''\<rparr>,
                  \<lparr>problem_id = ''p38'', problem_title = ''T38''\<rparr>,
                  \<lparr>problem_id = ''p39'', problem_title = ''T39''\<rparr>,
                  \<lparr>problem_id = ''p40'', problem_title = ''T40''\<rparr>]\<rparr>
     [\<lparr>p_id = ''r01'', problemId = ''p01'', completed = True\<rparr>,
      \<lparr>p_id = ''r02'', problemId = ''p02'', completed = True\<rparr>,
      \<lparr>p_id = ''r03'', problemId = ''p03'', completed = True\<rparr>,
      \<lparr>p_id = ''r04'', problemId = ''p04'', completed = True\<rparr>,
      \<lparr>p_id = ''r05'', problemId = ''p05'', completed = True\<rparr>,
      \<lparr>p_id = ''r06'', problemId = ''p06'', completed = True\<rparr>,
      \<lparr>p_id = ''r07'', problemId = ''p07'', completed = True\<rparr>,
      \<lparr>p_id = ''r08'', problemId = ''p08'', completed = True\<rparr>,
      \<lparr>p_id = ''r09'', problemId = ''p09'', completed = True\<rparr>,
      \<lparr>p_id = ''r10'', problemId = ''p10'', completed = True\<rparr>,
      \<lparr>p_id = ''r11'', problemId = ''p11'', completed = True\<rparr>,
      \<lparr>p_id = ''r12'', problemId = ''p12'', completed = True\<rparr>,
      \<lparr>p_id = ''r13'', problemId = ''p13'', completed = True\<rparr>,
      \<lparr>p_id = ''r14'', problemId = ''p14'', completed = True\<rparr>,
      \<lparr>p_id = ''r15'', problemId = ''p15'', completed = True\<rparr>,
      \<lparr>p_id = ''r16'', problemId = ''p16'', completed = True\<rparr>,
      \<lparr>p_id = ''r17'', problemId = ''p17'', completed = True\<rparr>,
      \<lparr>p_id = ''r18'', problemId = ''p18'', completed = True\<rparr>,
      \<lparr>p_id = ''r19'', problemId = ''p19'', completed = True\<rparr>,
      \<lparr>p_id = ''r20'', problemId = ''p20'', completed = True\<rparr>,
      \<lparr>p_id = ''r21'', problemId = ''p21'', completed = True\<rparr>,
      \<lparr>p_id = ''r22'', problemId = ''p22'', completed = True\<rparr>,
      \<lparr>p_id = ''r23'', problemId = ''p23'', completed = True\<rparr>]
   = \<lparr>ts_total = 40, ts_completed = 23, ts_percentage = 57\<rparr>
   \<and> round_half_up_percent 23 40 = 58"
  by (simp add: topicDetail_stats_def Let_def isProblemCompleted_def percentage_23_of_40
      round_half_up_percent_def)

section \<open>Properties of the Dashboard\<close>

lemma fold_completed:
  "fold (\<lambda>progress s. if completed progress then insert (problemId progress) s else s) xs S
   = S \<union> problemId ` {p \<in> set xs. completed p}"
  by (induction xs arbitrary: S) auto

lemma completedProblems_eq:
  "completedProblems xs = problemId ` {p \<in> set xs. completed p}"
  by (simp add: completedProblems_def fold_completed)

lemma completedProblems_filter:
  "(pid \<in> completedProblems rs) =
     list_ex completed (filter (\<lambda>r. problemId r = pid) rs)"
  by (auto simp add: completedProblems_eq list_ex_iff)

text \<open>
  C10, as the code has it. On every list the flag of TopicDetail for a problem (the
  first record of the problem is completed) implies the flag the Dashboard derives (some
  record of the problem is completed). The two flags are equal exactly when the list
  has no record of the problem, or the first record of the problem is completed, or no
  record of the problem after the first is completed; they differ exactly when the
  first record of the problem is incomplete and a later one is completed.
\<close>

theorem dashboard_flag_vs_topicDetail_flag:
  "(isProblemCompleted rs pid \<longrightarrow> pid \<in> completedProblems rs)
   \<and> (((pid \<in> completedProblems rs) = isProblemCompleted rs pid) =
        (case filter (\<lambda>r. problemId r = pid) rs of
           [] \<Rightarrow> True
         | first # rest \<Rightarrow> completed first \<or> list_all (\<lambda>r. \<not> completed r) rest))"
proof (cases "filter (\<lambda>r. problemId r = pid) rs")
  case Nil
  then show ?thesis
    by (simp add: completedProblems_filter isProblemCompleted_filter)
next
  case (Cons f rest)
  then show ?thesis
    by (auto simp add: completedProblems_filter isProblemCompleted_filter list_all_iff list_ex_iff)
qed

text \<open>Two records of one problem with different flags, the completed one first.\<close>

theorem dashboard_flag_vs_topicDetail_flag_witness:
  "(''P'' \<in> completedProblems
       [\<lparr>p_id = ''r1'', problemId = ''P'', completed = True\<rparr>,
        \<lparr>p_id = ''r2'', problemId = ''P'', completed = False\<rparr>])
     = isProblemCompleted
       [\<lparr>p_id = ''r1'', problemId = ''P'', completed = True\<rparr>,
        \<lparr>p_id = ''r2'', problemId = ''P'', completed = False\<rparr>] ''P''
   \<and> isProblemCompleted
       [\<lparr>p_id = ''r1'', problemId = ''P'', completed = True\<rparr>,
        \<lparr>p_id = ''r2'', problemId = ''P'', completed = False\<rparr>] ''P''"
  using dashboard_flag_vs_topicDetail_flag
    [of "[\<lparr>p_id = ''r1'', problemId = ''P'', completed = True\<rparr>,
          \<lparr>p_id = ''r2'', problemId = ''P'', completed = False\<rparr>]" "''P''"]
  by (simp add: isProblemCompleted_def)

text \<open>
  C10 as stated fails on a list with two records for one problem, the first incomplete
  and the second completed.
\<close>

theorem dashboard_flag_differs_counterexample:
  "(''P'' \<in> completedProblems
       [\<lparr>p_id = ''r1'', problemId = ''P'', completed = False\<rparr>,
        \<lparr>p_id = ''r2'', problemId = ''P'', completed = True\<rparr>])
   \<noteq> isProblemCompleted
       [\<lparr>p_id = ''r1'', problemId = ''P'', completed = False\<rparr>,
        \<lparr>p_id = ''r2'', problemId = ''P'', completed = True\<rparr>] ''P''"
  by (simp add: completedProblems_def isProblemCompleted_def)

lemma fold_completed_json_None:
  "fold (\<lambda>progress acc.
             case acc of
               None \<Rightarrow> None
             | Some s \<Rightarrow>
                 if pj_completed progress
                 then (case pj_problemId progress of
                         None \<Rightarrow> None
                       | Some i \<Rightarrow> Some (insert i s))
                 else Some s) xs None = None"
  by (induction xs) simp_all

lemma fold_completed_json:
  "fold (\<lambda>progress acc.
             case acc of
               None \<Rightarrow> None
             | Some s \<Rightarrow>
                 if pj_completed progress
                 then (case pj_problemId progress of
                         None \<Rightarrow> None
                       | Some i \<Rightarrow> Some (insert i s))
                 else Some s) xs (Some S) =
   (if list_ex (\<lambda>p. pj_completed p \<and> pj_problemId p = None) xs then None
    else Some (S \<union> {i. \<exists>p \<in> set xs. pj_completed p \<and> pj_problemId p = Some i}))"
proof (induction xs arbitrary: S)
  case Nil
  show ?case by simp
next
  case (Cons x xs)
  show ?case
  proof (cases "pj_completed x")
    case False
    then show ?thesis using Cons.IH [of S] by simp
  next
    case True
    show ?thesis
    proof (cases "pj_problemId x")
      case None
      with True show ?thesis by (simp add: fold_completed_json_None)
    next
      case (Some i)
      have "insert i S \<union> {j. \<exists>p \<in> set xs. pj_completed p \<and> pj_problemId p = Some j}
          = S \<union> {j. \<exists>p \<in> set (x # xs). pj_completed p \<and> pj_problemId p = Some j}"
        using True Some by auto
      with True Some show ?thesis using Cons.IH [of "insert i S"] by simp
    qed
  qed
qed

lemma completedProblems_json_throws:
  "(completedProblems_json xs = None) =
     list_ex (\<lambda>p. pj_completed p \<and> pj_problemId p = None) xs"
  by (simp add: completedProblems_json_def fold_completed_json)

lemma those_map_None:
  "(those (map g xs) = None) = list_ex (\<lambda>x. g x = None) xs"
  by (induction xs) (auto split: option.splits)

lemma topicsWithProgress_json_throws:
  "(topicsWithProgress_json ts C = None) = list_ex (\<lambda>tp. tj_problems tp = None) ts"
proof -
  have "(topicsWithProgress_json ts C = None) =
      list_ex (\<lambda>tp. (case tj_problems tp of
          None \<Rightarrow> None
        | Some ps \<Rightarrow>
            Some \<lparr>topic_id = tj_id tp, topic_title = tj_title tp,
                  problems = map (\<lambda>problem.
                     \<lparr>problem_id = problem_id problem, problem_title = problem_title problem,
                      problem_completed = (problem_id problem \<in> C)\<rparr>) ps\<rparr>) = None) ts"
    unfolding topicsWithProgress_json_def by (rule those_map_None)
  also have "\<dots> = list_ex (\<lambda>tp. tj_problems tp = None) ts"
    by (simp add: list_ex_iff split: option.splits)
  finally show ?thesis .
qed

lemma foldl_total_json:
  "foldl (\<lambda>total tp. total + (case tj_problems tp of
                                  Some ps \<Rightarrow> int (length ps)
                                | None \<Rightarrow> 0)) a ts
   = a + (\<Sum>tp\<leftarrow>ts. case tj_problems tp of Some ps \<Rightarrow> int (length ps) | None \<Rightarrow> 0)"
  by (induction ts arbitrary: a) simp_all




lemma foldl_total:
  "foldl (\<lambda>total tp. total + int (length (problems tp))) a ts
   = a + (\<Sum>tp\<leftarrow>ts. int (length (problems tp)))"
  by (induction ts arbitrary: a) simp_all

lemma card_completed_records:
  assumes "distinct (map problemId xs)"
  shows "card (problemId ` {p \<in> set xs. completed p}) = length (filter completed xs)"
proof -
  have "distinct (map problemId (filter completed xs))"
    using assms by (rule distinct_map_filter)
  then have "card (set (map problemId (filter completed xs))) = length (map problemId (filter completed xs))"
    by (rule distinct_card)
  moreover have "set (map problemId (filter completed xs)) = problemId ` {p \<in> set xs. completed p}"
    by auto
  ultimately show ?thesis by simp
qed

lemma length_filter_mem:
  assumes "distinct (map f xs)" and "C \<subseteq> f ` set xs"
  shows "length (filter (\<lambda>x. f x \<in> C) xs) = card C"
proof -
  have "distinct (map f (filter (\<lambda>x. f x \<in> C) xs))"
    using assms(1) by (rule distinct_map_filter)
  then have "card (set (map f (filter (\<lambda>x. f x \<in> C) xs))) = length (map f (filter (\<lambda>x. f x \<in> C) xs))"
    by (rule distinct_card)
  moreover have "set (map f (filter (\<lambda>x. f x \<in> C) xs)) = C"
    using assms(2) by auto
  ultimately show ?thesis by simp
qed

lemma card_stats_sum:
  "(\<Sum>tp\<leftarrow>topicsWithProgress ts ps. ts_completed (dashboard_card_stats tp))
   = int (length (filter (\<lambda>problem. problem_id problem \<in> completedProblems ps)
        (concat (map problems ts))))"
proof (induction ts)
  case Nil
  show ?case by (simp add: topicsWithProgress_def)
next
  case (Cons tp ts)
  have "topicsWithProgress (tp # ts) ps =
      \<lparr>topic_id = topic_id tp, topic_title = topic_title tp,
       problems = map (\<lambda>problem.
           \<lparr>problem_id = problem_id problem, problem_title = problem_title problem,
            problem_completed = (problem_id problem \<in> completedProblems ps)\<rparr>)
         (problems tp)\<rparr> # topicsWithProgress ts ps"
    by (simp add: topicsWithProgress_def)
  then show ?case
    using Cons.IH
    by (simp add: dashboard_card_stats_def Let_def comp_def)
qed

lemma percentage_4_of_6: "percentage_of 4 6 = 67"
  by code_simp


text \<open>
  C8, as the code has it. In the local statistics the total is the sum of the numbers of
  problems of the fetched topics, and completed is the number of progress records whose
  flag is set, whether or not their problem belongs to a fetched topic. It equals the
  sum of the completed counts of the topic cards when no two records share a problem,
  no problem occurs twice among the topics and every completed record belongs to a
  problem of some topic. The percentage is computed from completed and total by the
  expression of the topic statistics; 4 of 6 gives 67.
\<close>

theorem local_global_stats:
  "stats_total (localStats topicsData progressData) =
     (\<Sum>tp\<leftarrow>topicsData. int (length (problems tp)))
   \<and> stats_completed (localStats topicsData progressData) =
       int (length (filter completed progressData))
   \<and> (distinct (map problemId progressData)
        \<and> distinct (map problem_id (concat (map problems topicsData)))
        \<and> (\<forall>p \<in> set progressData. completed p \<longrightarrow>
              problemId p \<in> problem_id ` set (concat (map problems topicsData)))
      \<longrightarrow> stats_completed (localStats topicsData progressData) =
            (\<Sum>tp\<leftarrow>topicsWithProgress topicsData progressData.
               ts_completed (dashboard_card_stats tp)))
   \<and> stats_percentage (localStats topicsData progressData) =
       percentage_of (stats_completed (localStats topicsData progressData))
         (stats_total (localStats topicsData progressData))
   \<and> percentage_of 4 6 = 67"
proof -
  have total: "stats_total (localStats topicsData progressData) =
     (\<Sum>tp\<leftarrow>topicsData. int (length (problems tp)))"
    by (simp add: localStats_def Let_def foldl_total)
  have compl: "stats_completed (localStats topicsData progressData) =
       int (length (filter completed progressData))"
    by (simp add: localStats_def Let_def)
  have pct: "stats_percentage (localStats topicsData progressData) =
       percentage_of (stats_completed (localStats topicsData progressData))
         (stats_total (localStats topicsData progressData))"
    by (simp add: localStats_def Let_def)
  have sums: "stats_completed (localStats topicsData progressData) =
            (\<Sum>tp\<leftarrow>topicsWithProgress topicsData progressData.
               ts_completed (dashboard_card_stats tp))"
    if d1: "distinct (map problemId progressData)"
      and d2: "distinct (map problem_id (concat (map problems topicsData)))"
      and sub: "\<forall>p \<in> set progressData. completed p \<longrightarrow>
              problemId p \<in> problem_id ` set (concat (map problems topicsData))"
  proof -
    have "completedProblems progressData \<subseteq> problem_id ` set (concat (map problems topicsData))"
      using sub unfolding completedProblems_eq by blast
    with d2 have "length (filter (\<lambda>problem. problem_id problem \<in> completedProblems progressData)
        (concat (map problems topicsData))) = card (completedProblems progressData)"
      by (rule length_filter_mem)
    also have "\<dots> = length (filter completed progressData)"
      unfolding completedProblems_eq using d1 by (rule card_completed_records)
    finally show ?thesis
      unfolding compl card_stats_sum by simp
  qed
  from total compl pct sums percentage_4_of_6 show ?thesis by blast
qed


text \<open>
  The example of two topics, one with 2 of 4 problems completed and one with 2 of 2.
\<close>

theorem local_global_stats_witness:
  "distinct (map problemId
       [\<lparr>p_id = ''r1'', problemId = ''a1'', completed = True\<rparr>,
        \<lparr>p_id = ''r2'', problemId = ''a2'', completed = True\<rparr>,
        \<lparr>p_id = ''r3'', problemId = ''a3'', completed = False\<rparr>,
        \<lparr>p_id = ''r4'', problemId = ''b1'', completed = True\<rparr>,
        \<lparr>p_id = ''r5'', problemId = ''b2'', completed = True\<rparr>])
   \<and> localStats
       [\<lparr>topic_id = ''A'', topic_title = ''Arrays'', problems =
          [\<lparr>problem_id = ''a1'', problem_title = ''T1''\<rparr>,
           \<lparr>problem_id = ''a2'', problem_title = ''T2''\<rparr>,
           \<lparr>problem_id = ''a3'', problem_title = ''T3''\<rparr>,
           \<lparr>problem_id = ''a4'', problem_title = ''T4''\<rparr>]\<rparr>,
        \<lparr>topic_id = ''B'', topic_title = ''Graphs'', problems =
          [\<lparr>problem_id = ''b1'', problem_title = ''T5''\<rparr>,
           \<lparr>problem_id = ''b2'', problem_title = ''T6''\<rparr>]\<rparr>]
       [\<lparr>p_id = ''r1'', problemId = ''a1'', completed = True\<rparr>,
        \<lparr>p_id = ''r2'', problemId = ''a2'', completed = True\<rparr>,
        \<lparr>p_id = ''r3'', problemId = ''a3'', completed = False\<rparr>,
        \<lparr>p_id = ''r4'', problemId = ''b1'', completed = True\<rparr>,
        \<lparr>p_id = ''r5'', problemId = ''b2'', completed = True\<rparr>]
     = \<lparr>stats_total = 6, stats_completed = 4, stats_remaining = 2, stats_percentage = 67\<rparr>
   \<and> map ts_completed (map dashboard_card_stats (topicsWithProgress
       [\<lparr>topic_id = ''A'', topic_title = ''Arrays'', problems =
          [\<lparr>problem_id = ''a1'', problem_title = ''T1''\<rparr>,
           \<lparr>problem_id = ''a2'', problem_title = ''T2''\<rparr>,
           \<lparr>problem_id = ''a3'', problem_title = ''T3''\<rparr>,
           \<lparr>problem_id = ''a4'', problem_title = ''T4''\<rparr>]\<rparr>,
        \<lparr>topic_id = ''B'', topic_title = ''Graphs'', problems =
          [\<lparr>problem_id = ''b1'', problem_title = ''T5''\<rparr>,
           \<lparr>problem_id = ''b2'', problem_title = ''T6''\<rparr>]\<rparr>]
       [\<lparr>p_id = ''r1'', problemId = ''a1'', completed = True\<rparr>,
        \<lparr>p_id = ''r2'', problemId = ''a2'', completed = True\<rparr>,
        \<lparr>p_id = ''r3'', problemId = ''a3'', completed = False\<rparr>,
        \<lparr>p_id = ''r4'', problemId = ''b1'', completed = True\<rparr>,
        \<lparr>p_id = ''r5'', problemId = ''b2'', completed = True\<rparr>]))
     = [2, 2]"
  using local_global_stats
    [of "[\<lparr>topic_id = ''A'', topic_title = ''Arrays'', problems =
            [\<lparr>problem_id = ''a1'', problem_title = ''T1''\<rparr>,
             \<lparr>problem_id = ''a2'', problem_title = ''T2''\<rparr>,
             \<lparr>problem_id = ''a3'', problem_title = ''T3''\<rparr>,
             \<lparr>problem_id = ''a4'', problem_title = ''T4''\<rparr>]\<rparr>,
          \<lparr>topic_id = ''B'', topic_title = ''Graphs'', problems =
            [\<lparr>problem_id = ''b1'', problem_title = ''T5''\<rparr>,
             \<lparr>problem_id = ''b2'', problem_title = ''T6''\<rparr>]\<rparr>]"
        "[\<lparr>p_id = ''r1'', problemId = ''a1'', completed = True\<rparr>,
          \<lparr>p_id = ''r2'', problemId = ''a2'', completed = True\<rparr>,
          \<lparr>p_id = ''r3'', problemId = ''a3'', completed = False\<rparr>,
          \<lparr>p_id = ''r4'', problemId = ''b1'', completed = True\<rparr>,
          \<lparr>p_id = ''r5'', problemId = ''b2'', completed = True\<rparr>]"]
  by (simp add: localStats_def Let_def percentage_4_of_6 topicsWithProgress_def
      dashboard_card_stats_def completedProblems_def)

text \<open>
  C8 as stated fails when a completed record belongs to no problem of a fetched topic:
  the record counts for the global figure and for no topic card.
\<close>

theorem global_completed_counterexample:
  "stats_completed (localStats
       [\<lparr>topic_id = ''A'', topic_title = ''Arrays'',
         problems = [\<lparr>problem_id = ''a1'', problem_title = ''Two Sum''\<rparr>]\<rparr>]
       [\<lparr>p_id = ''r1'', problemId = ''zz'', completed = True\<rparr>]) = 1
   \<and> map ts_completed (map dashboard_card_stats (topicsWithProgress
        [\<lparr>topic_id = ''A'', topic_title = ''Arrays'',
          problems = [\<lparr>problem_id = ''a1'', problem_title = ''Two Sum''\<rparr>]\<rparr>]
        [\<lparr>p_id = ''r1'', problemId = ''zz'', completed = True\<rparr>])) = [0]"
  by (simp add: localStats_def Let_def topicsWithProgress_def dashboard_card_stats_def
      completedProblems_def)

subsection \<open>Responses of the expected shape\<close>

text \<open>
  On responses of the expected shape \<open>fetchData\<close> sets the topics to
  \<open>topicsWithProgress\<close> and computes its local statistics as \<open>localStats\<close>; on a
  failed topics request and on a throw it leaves the topics as they were.
\<close>

lemma completedProblems_json_expected:
  "completedProblems_json (map json_of_progress ps) = Some (completedProblems ps)"
proof -
  have "\<not> list_ex (\<lambda>p. pj_completed p \<and> pj_problemId p = None) (map json_of_progress ps)"
    by (simp add: list_ex_iff json_of_progress_def)
  moreover have "{i. \<exists>p \<in> set (map json_of_progress ps). pj_completed p \<and> pj_problemId p = Some i}
      = problemId ` {p \<in> set ps. completed p}"
    by (auto simp add: json_of_progress_def)
  ultimately show ?thesis
    by (simp add: completedProblems_json_def fold_completed_json completedProblems_eq)
qed

lemma topicsWithProgress_json_expected:
  "topicsWithProgress_json (map json_of_topic ts) (completedProblems ps)
   = Some (topicsWithProgress ts ps)"
  by (induction ts)
    (simp_all add: topicsWithProgress_json_def topicsWithProgress_def json_of_topic_def)

lemma localStats_json_expected:
  "localStats_json (map json_of_topic ts) (map json_of_progress ps) = localStats ts ps"
proof -
  have "(\<Sum>tp\<leftarrow>map json_of_topic ts. case tj_problems tp of Some ps \<Rightarrow> int (length ps) | None \<Rightarrow> 0)
      = (\<Sum>tp\<leftarrow>ts. int (length (problems tp)))"
    by (induction ts) (simp_all add: json_of_topic_def)
  moreover have "length (filter pj_completed (map json_of_progress ps)) = length (filter completed ps)"
    by (induction ps) (simp_all add: json_of_progress_def)
  ultimately show ?thesis
    by (simp add: localStats_json_def localStats_def Let_def foldl_total_json foldl_total)
qed

lemma fetchData_expected_shape:
  "fetchData st (Resolved (map json_of_topic ts)) statsResponse
     (Resolved (map json_of_progress ps)) =
   st\<lparr>topics := topicsWithProgress ts ps,
      stats := (case statsResponse of
                  Resolved (Some remote) \<Rightarrow>
                    if stats_total remote > 0 then remote else localStats ts ps
                | Resolved None \<Rightarrow> localStats ts ps
                | Failed \<Rightarrow> localStats ts ps),
      loading := False\<rparr>"
  by (simp add: fetchData_def Let_def completedProblems_json_expected
      topicsWithProgress_json_expected localStats_json_expected zero_stats_def
      split: response.splits option.splits)

lemma fetchData_topics_failed:
  "fetchData st Failed statsResponse progressResponse = st\<lparr>stats := zero_stats, loading := False\<rparr>"
  by (simp add: fetchData_def Let_def)

lemma fetchData_throws:
  assumes "list_ex (\<lambda>p. pj_completed p \<and> pj_problemId p = None)
             (case progressResponse of Resolved d \<Rightarrow> d | Failed \<Rightarrow> [])
           \<or> list_ex (\<lambda>tp. tj_problems tp = None) topicsData"
  shows "fetchData st (Resolved topicsData) statsResponse progressResponse
         = st\<lparr>stats := zero_stats, loading := False\<rparr>"
proof -
  define progressData where
    "progressData = (case progressResponse of Resolved d \<Rightarrow> d | Failed \<Rightarrow> [])"
  show ?thesis
  proof (cases "completedProblems_json progressData")
    case None
    then show ?thesis
      by (simp add: fetchData_def Let_def progressData_def [symmetric])
  next
    case (Some C)
    then have "\<not> list_ex (\<lambda>p. pj_completed p \<and> pj_problemId p = None) progressData"
      using completedProblems_json_throws [of progressData] by simp
    with assms have "list_ex (\<lambda>tp. tj_problems tp = None) topicsData"
      by (simp add: progressData_def)
    then have "topicsWithProgress_json topicsData C = None"
      by (simp only: topicsWithProgress_json_throws)
    with Some show ?thesis
      by (simp add: fetchData_def Let_def progressData_def [symmetric])
  qed
qed

end
